theory Spec2Isabelle
  imports Main "HOL-Library.Word"
begin

unbundle bit_operations_syntax

section \<open>The OPFS device of ffmpeg.wasm\<close>

text \<open>
  The source is one file, \<^verbatim>\<open>src/bind/ffmpeg/opfs-device.js\<close>. It defines
  \<^verbatim>\<open>Module["registerOpfsFile"](path, accessHandle)\<close>, which registers a character
  device with the hosting file system \<^verbatim>\<open>FS\<close> and creates a device node at
  \<^verbatim>\<open>path\<close>. The device is a table of five stream operations (open, close, read,
  write, llseek) closed over \<^verbatim>\<open>accessHandle\<close>.

  Two objects are foreign to the file: the access handle (a
  \<^verbatim>\<open>FileSystemSyncAccessHandle\<close> supplied by the caller) and the file system
  \<^verbatim>\<open>FS\<close> of the runtime. Both are parameters of the embedding: a record of their
  methods over a state type. Every method may throw; a JavaScript call is modelled by
  its completion, \<open>Inl\<close> an exception and \<open>Inr\<close> the returned value together with the
  objects it may have mutated.
\<close>

subsection \<open>JavaScript values\<close>

datatype errno = EEXIST | ENOENT | EACCES | EINVAL

datatype exn = ErrnoError errno | DOMException string | TypeError string

type_synonym byte = "8 word"

type_synonym uint8array = "byte list"

text \<open>
  \<^verbatim>\<open>TypedArray.prototype.subarray(begin, end)\<close>: a negative index counts from the
  end, both indices are clamped to the array, and the view is empty when the end is
  not after the beginning. The result is the first index and the length of the view.
\<close>

definition relative_index :: "nat \<Rightarrow> int \<Rightarrow> nat" where
  "relative_index len i =
     (if i < 0 then nat (max (int len + i) 0) else nat (min i (int len)))"

definition subarray :: "nat \<Rightarrow> int \<Rightarrow> int \<Rightarrow> nat \<times> nat" where
  "subarray len begin end =
     (let beginIndex = relative_index len begin;
          endIndex = relative_index len end
      in (beginIndex, endIndex - beginIndex))"

definition view_of :: "uint8array \<Rightarrow> nat \<times> nat \<Rightarrow> uint8array" where
  "view_of buffer r = take (snd r) (drop (fst r) buffer)"

text \<open>
  A view shares the memory of its array: what a callee stores into the view is stored
  into the array. \<open>view'\<close> is the content of the view after the call; a typed array
  has a fixed length, so bytes beyond the view's length are dropped and missing ones
  keep their old value.
\<close>

definition store_view :: "uint8array \<Rightarrow> nat \<times> nat \<Rightarrow> uint8array \<Rightarrow> uint8array" where
  "store_view buffer r view' =
     (let view = view_of buffer r
      in take (fst r) buffer
         @ take (length view) view' @ drop (length view') view
         @ drop (fst r + length view) buffer)"

subsection \<open>The access handle and the stream\<close>

text \<open>
  The methods of a \<^verbatim>\<open>FileSystemSyncAccessHandle\<close> over a handle state \<open>'h\<close>.
  \<open>ah_read h view at\<close> is \<^verbatim>\<open>accessHandle.read(view, { at })\<close>: it returns the number
  of bytes read, the content of the view afterwards and the new handle state.
  The source calls \<open>ah_read\<close>, \<open>ah_write\<close> and \<open>ah_getSize\<close> only; \<open>ah_flush\<close> and
  \<open>ah_close\<close> are the methods its comments say it leaves to the caller.
\<close>

record 'h access_handle =
  ah_read :: "'h \<Rightarrow> uint8array \<Rightarrow> int \<Rightarrow> exn + (int \<times> uint8array \<times> 'h)"
  ah_write :: "'h \<Rightarrow> uint8array \<Rightarrow> int \<Rightarrow> exn + (int \<times> 'h)"
  ah_getSize :: "'h \<Rightarrow> exn + (int \<times> 'h)"
  ah_flush :: "'h \<Rightarrow> exn + 'h"
  ah_close :: "'h \<Rightarrow> exn + 'h"

text \<open>The only field of an open stream that the source reads is its position.\<close>

record stream =
  position :: int

subsection \<open>The five stream operations (lines 28 to 80)\<close>


definition close :: "'h access_handle \<Rightarrow> 'h \<Rightarrow> stream \<Rightarrow> exn + (int \<times> 'h \<times> stream)" where
  "close ah h stream = Inr (0, h, stream)"

definition read ::
  "'h access_handle \<Rightarrow> 'h \<Rightarrow> stream \<Rightarrow> uint8array \<Rightarrow> int \<Rightarrow> int \<Rightarrow> int
     \<Rightarrow> exn + (int \<times> uint8array \<times> 'h \<times> stream)" where
  "read ah h stream buffer offset len position' =
     (let r = subarray (length buffer) offset (offset + len)
      in case ah_read ah h (view_of buffer r) position' of
           Inl e \<Rightarrow> Inl e
         | Inr (bytesRead, view', h') \<Rightarrow>
             Inr (bytesRead, store_view buffer r view', h', stream))"

definition write_op ::
  "'h access_handle \<Rightarrow> 'h \<Rightarrow> stream \<Rightarrow> uint8array \<Rightarrow> int \<Rightarrow> int \<Rightarrow> int
     \<Rightarrow> exn + (int \<times> uint8array \<times> 'h \<times> stream)" where
  "write_op ah h stream buffer offset len position' =
     (let r = subarray (length buffer) offset (offset + len)
      in case ah_write ah h (view_of buffer r) position' of
           Inl e \<Rightarrow> Inl e
         | Inr (bytesWritten, h') \<Rightarrow> Inr (bytesWritten, buffer, h', stream))"

definition llseek ::
  "'h access_handle \<Rightarrow> 'h \<Rightarrow> stream \<Rightarrow> int \<Rightarrow> int \<Rightarrow> exn + (int \<times> 'h \<times> stream)" where
  "llseek ah h stream offset whence =
     (if whence = 0 then Inr (offset, h, stream)
      else if whence = 1 then Inr (position stream + offset, h, stream)
      else if whence = 2 then
        (case ah_getSize ah h of
           Inl e \<Rightarrow> Inl e
         | Inr (size', h') \<Rightarrow> Inr (size' + offset, h', stream))
      else Inr (position stream, h, stream))"

subsection \<open>An in-memory access handle\<close>

text \<open>
  Modelled from the spec: the access handle is supplied by the caller and is not under
  \<^verbatim>\<open>src/\<close>. This is the in-memory backing store of section 4.2 of the spec, with
  the behaviour of a synchronous access handle: a read copies at most the view's
  length, less at the end of the store; a write stores the whole view and grows the
  store, filling a gap with zeros; every method throws once the handle is closed.
  The theorems below hold for every access handle; this one is the concrete input of
  the witnesses and counterexamples.
\<close>

record mem_handle =
  contents :: uint8array
  closed :: bool

definition mem_read :: "mem_handle \<Rightarrow> uint8array \<Rightarrow> int \<Rightarrow> exn + (int \<times> uint8array \<times> mem_handle)" where
  "mem_read h view at =
     (if closed h then Inl (DOMException ''InvalidStateError'')
      else if at < 0 then Inl (TypeError ''at'')
      else let avail = drop (nat at) (contents h);
               n = min (length view) (length avail)
           in Inr (int n, take n avail @ drop n view, h))"

definition mem_write :: "mem_handle \<Rightarrow> uint8array \<Rightarrow> int \<Rightarrow> exn + (int \<times> mem_handle)" where
  "mem_write h view at =
     (if closed h then Inl (DOMException ''InvalidStateError'')
      else if at < 0 then Inl (TypeError ''at'')
      else let old = contents h;
               padded = old @ replicate (nat at - length old) 0
           in Inr (int (length view),
                   h\<lparr>contents := take (nat at) padded @ view @ drop (nat at + length view) old\<rparr>))"

definition mem_getSize :: "mem_handle \<Rightarrow> exn + (int \<times> mem_handle)" where
  "mem_getSize h =
     (if closed h then Inl (DOMException ''InvalidStateError'')
      else Inr (int (length (contents h)), h))"

definition mem_ops :: "mem_handle access_handle" where
  "mem_ops =
     \<lparr>ah_read = mem_read, ah_write = mem_write, ah_getSize = mem_getSize,
      ah_flush = (\<lambda>h. if closed h then Inl (DOMException ''InvalidStateError'') else Inr h),
      ah_close = (\<lambda>h. Inr (h\<lparr>closed := True\<rparr>))\<rparr>"

definition mem_store :: "uint8array \<Rightarrow> mem_handle" where
  "mem_store bs = \<lparr>contents = bs, closed = False\<rparr>"

subsection \<open>Seek-origin arithmetic as the spec words it\<close>

text \<open>
  Section 4.3 of the spec: \<open>resolve(currentPosition, requestedOffset, origin,
  storeSize)\<close> with the origins START (absolute), CURRENT (relative to the current
  position) and END (relative to the store size). This definition follows the spec's
  words; \<open>llseek\<close> above follows the source, whose \<^verbatim>\<open>whence\<close> is 0, 1 or 2.
\<close>

datatype origin = START | CURRENT | END

definition SeekCursor_resolve :: "int \<Rightarrow> int \<Rightarrow> origin \<Rightarrow> int \<Rightarrow> int" where
  "SeekCursor_resolve currentPosition requestedOffset origin' storeSize =
     (case origin' of
        START \<Rightarrow> requestedOffset
      | CURRENT \<Rightarrow> currentPosition + requestedOffset
      | END \<Rightarrow> storeSize + requestedOffset)"

text \<open>The reference point of an origin: the start, the current position or the end.\<close>

definition origin_base :: "origin \<Rightarrow> int \<Rightarrow> int \<Rightarrow> int" where
  "origin_base origin' currentPosition storeSize =
     (case origin' of
        START \<Rightarrow> 0
      | CURRENT \<Rightarrow> currentPosition
      | END \<Rightarrow> storeSize)"

definition origin_of_whence :: "int \<Rightarrow> origin option" where
  "origin_of_whence whence =
     (if whence = 0 then Some START
      else if whence = 1 then Some CURRENT
      else if whence = 2 then Some END
      else None)"

section \<open>registerOpfsFile (lines 9 to 105)\<close>

subsection \<open>Splitting the path (lines 87 to 89)\<close>

text \<open>
  \<^verbatim>\<open>String.prototype.split\<close> with a one-character separator (the empty string
  splits into one empty part) and \<^verbatim>\<open>Array.prototype.join\<close>.
  \<^verbatim>\<open>parts.pop()\<close> removes and returns the last part, so \<open>fileName\<close> is the last
  part and \<open>dirPath\<close> joins the others; \<^verbatim>\<open>|| '/'\<close> replaces an empty join.
\<close>

fun js_split :: "char \<Rightarrow> string \<Rightarrow> string list" where
  "js_split c [] = [[]]"
| "js_split c (x # xs) =
     (if x = c then [] # js_split c xs
      else (case js_split c xs of
              [] \<Rightarrow> [[x]]
            | w # ws \<Rightarrow> (x # w) # ws))"

fun js_join :: "char \<Rightarrow> string list \<Rightarrow> string" where
  "js_join c [] = []"
| "js_join c [w] = w"
| "js_join c (w # ws) = w @ c # js_join c ws"

definition fileName :: "string \<Rightarrow> string" where
  "fileName path = last (js_split CHR ''/'' path)"

definition dirPath :: "string \<Rightarrow> string" where
  "dirPath path =
     (let joined = js_join CHR ''/'' (butlast (js_split CHR ''/'' path))
      in if joined = [] then ''/'' else joined)"

subsection \<open>The hosting file system and the module state\<close>

text \<open>
  The four entry points of \<^verbatim>\<open>FS\<close> that the source calls, over a file-system state
  \<open>'fs\<close>. \<open>'a\<close> is the access handle that the registered stream operations are closed
  over: \<open>registerDevice fs dev a\<close> is
  \<^verbatim>\<open>FS.registerDevice(dev, { open, close, read, write, llseek })\<close> for the handle
  \<open>a\<close>. A method that throws leaves the file system as it was.
\<close>

record ('fs, 'a) fs_ops =
  makedev :: "int \<Rightarrow> int \<Rightarrow> int"
  registerDevice :: "'fs \<Rightarrow> int \<Rightarrow> 'a \<Rightarrow> exn + 'fs"
  mkdir :: "'fs \<Rightarrow> string \<Rightarrow> exn + 'fs"
  mkdev :: "'fs \<Rightarrow> string \<Rightarrow> int \<Rightarrow> exn + 'fs"

text \<open>
  The globals the function reads and writes: \<^verbatim>\<open>Module["_opfs_device_minor"]\<close>
  (undefined until the first registration) and \<^verbatim>\<open>FS\<close>, which is \<open>None\<close> when
  \<^verbatim>\<open>typeof FS === 'undefined'\<close>. The counter is a JavaScript number; it is exact
  below \<open>2 ^ 53\<close> and modelled as an unbounded integer.
\<close>

record 'fs runtime =
  opfs_device_minor :: "int option"
  FS :: "'fs option"

text \<open>What the function prints with \<^verbatim>\<open>console.error\<close>.\<close>

datatype console_msg = FS_not_initialized | Failed_to_register exn

subsection \<open>The function\<close>

text \<open>
  Lines 18 to 23. \<open>counter st\<close> is the counter after
  \<^verbatim>\<open>if (!Module["_opfs_device_minor"]) Module["_opfs_device_minor"] = 0\<close>. The major
  number is the constant 80 and the minor number is the counter after \<^verbatim>\<open>++\<close>:
  \<open>device_identity st\<close> is the pair that a call in state \<open>st\<close> passes to
  \<^verbatim>\<open>FS.makedev\<close>.
\<close>

definition counter :: "'fs runtime \<Rightarrow> int" where
  "counter st =
     (case opfs_device_minor st of
        None \<Rightarrow> 0
      | Some n \<Rightarrow> if n = 0 then 0 else n)"

definition device_identity :: "'fs runtime \<Rightarrow> int \<times> int" where
  "device_identity st =
     (let major = 80;
          minor = counter st + 1
      in (major, minor))"

text \<open>
  The body of the outer \<^verbatim>\<open>try\<close> (lines 17 to 99). It completes with \<open>Inl e\<close>
  when a call throws \<open>e\<close> outside the inner \<^verbatim>\<open>try\<close>, and returns the state as the
  throw leaves it: the counter is already incremented, the device is registered once
  \<open>registerDevice\<close> has returned, and the directory is kept if \<open>mkdir\<close> made one. An
  exception of \<open>mkdir\<close> is caught and dropped (lines 92 to 96).
\<close>

definition try_body ::
  "('fs, 'a) fs_ops \<Rightarrow> 'fs runtime \<Rightarrow> 'fs \<Rightarrow> string \<Rightarrow> 'a \<Rightarrow> (exn + bool) \<times> 'fs runtime" where
  "try_body ops st fs path accessHandle =
     (let (major, minor) = device_identity st;
          st1 = st\<lparr>opfs_device_minor := Some minor\<rparr>;
          device = makedev ops major minor
      in case registerDevice ops fs device accessHandle of
           Inl e \<Rightarrow> (Inl e, st1)
         | Inr fs1 \<Rightarrow>
             (let fs2 = (case mkdir ops fs1 (dirPath path) of
                           Inl e \<Rightarrow> fs1
                         | Inr fs' \<Rightarrow> fs')
              in case mkdev ops fs2 path device of
                   Inl e \<Rightarrow> (Inl e, st1\<lparr>FS := Some fs2\<rparr>)
                 | Inr fs3 \<Rightarrow> (Inr True, st1\<lparr>FS := Some fs3\<rparr>)))"

text \<open>
  The whole function: the completion of the call (\<open>Inl\<close> would be an exception
  reaching the caller), the lines printed, and the state afterwards.
\<close>

definition registerOpfsFile ::
  "('fs, 'a) fs_ops \<Rightarrow> 'fs runtime \<Rightarrow> string \<Rightarrow> 'a
     \<Rightarrow> ((exn + bool) \<times> console_msg list) \<times> 'fs runtime" where
  "registerOpfsFile ops st path accessHandle =
     (case FS st of
        None \<Rightarrow> ((Inr False, [FS_not_initialized]), st)
      | Some fs \<Rightarrow>
          (case try_body ops st fs path accessHandle of
             (Inl e, st') \<Rightarrow> ((Inr False, [Failed_to_register e]), st')
           | (Inr b, st') \<Rightarrow> ((Inr b, []), st')))"


subsection \<open>A reference file system\<close>

text \<open>
  Modelled from the spec: \<^verbatim>\<open>FS\<close> is the file system of the Emscripten runtime and
  is not under \<^verbatim>\<open>src/\<close>. The model is the directory-tree collaborator of section 6
  of the spec (binding a device at a path fails if the path is occupied) with the
  behaviour the source's own comments rely on: \<^verbatim>\<open>FS.mkdir\<close> throws when the path
  exists (line 95, "Ignore if exists"), and \<^verbatim>\<open>FS.mkdev\<close> requires the directory to
  exist (line 85); neither creates missing ancestors, and a node that is not a
  directory refuses the lookup of a name in it.

  A tree is a map from resolved paths (the list of names from the root, the root
  being \<open>[]\<close>) to nodes, and the device table maps a device number to the stream
  operations registered for it, that is, to their access handle. Paths are resolved
  from the root: empty parts and \<^verbatim>\<open>.\<close> are dropped, and \<^verbatim>\<open>..\<close> removes the name
  before it. \<open>makedev\<close> is \<^verbatim>\<open>(ma << 8) | mi\<close> on 32-bit integers.
  The theorems on \<open>registerOpfsFile\<close> that need no file-system behaviour are stated
  for every \<open>fs_ops\<close>; this instance is used where a claim depends on what
  \<^verbatim>\<open>FS.mkdir\<close> and \<^verbatim>\<open>FS.mkdev\<close> do.
\<close>

datatype node = Dir | File | Dev int

record 'a memfs =
  nodes :: "string list \<rightharpoonup> node"
  devices :: "int \<rightharpoonup> 'a"

fun normalize_rev :: "nat \<Rightarrow> string list \<Rightarrow> string list" where
  "normalize_rev up [] = []"
| "normalize_rev up (p # ps) =
     (if p = ''.'' then normalize_rev up ps
      else if p = ''..'' then normalize_rev (Suc up) ps
      else if 0 < up then normalize_rev (up - 1) ps
      else p # normalize_rev 0 ps)"

definition resolve_path :: "string \<Rightarrow> string list" where
  "resolve_path path =
     rev (normalize_rev 0 (rev (filter (\<lambda>p. p \<noteq> []) (js_split CHR ''/'' path))))"

definition memfs_makedev :: "int \<Rightarrow> int \<Rightarrow> int" where
  "memfs_makedev ma mi = sint (push_bit 8 (word_of_int ma :: 32 word) OR word_of_int mi)"

definition memfs_registerDevice :: "'a memfs \<Rightarrow> int \<Rightarrow> 'a \<Rightarrow> exn + 'a memfs" where
  "memfs_registerDevice fs dev a = Inr (fs\<lparr>devices := (devices fs)(dev \<mapsto> a)\<rparr>)"

definition memfs_mknod :: "'a memfs \<Rightarrow> string \<Rightarrow> node \<Rightarrow> exn + 'a memfs" where
  "memfs_mknod fs path n =
     (let cs = resolve_path path
      in if cs = [] then Inl (ErrnoError EEXIST)
         else (case nodes fs (butlast cs) of
                 None \<Rightarrow> Inl (ErrnoError ENOENT)
               | Some Dir \<Rightarrow>
                   (if nodes fs cs = None
                    then Inr (fs\<lparr>nodes := (nodes fs)(cs \<mapsto> n)\<rparr>)
                    else Inl (ErrnoError EEXIST))
               | Some _ \<Rightarrow> Inl (ErrnoError EACCES)))"

definition memfs_ops :: "('a memfs, 'a) fs_ops" where
  "memfs_ops =
     \<lparr>makedev = memfs_makedev,
      registerDevice = memfs_registerDevice,
      mkdir = (\<lambda>fs path. memfs_mknod fs path Dir),
      mkdev = (\<lambda>fs path dev. memfs_mknod fs path (Dev dev))\<rparr>"

text \<open>A fresh file system holds the root directory only.\<close>

definition memfs_root :: "'a memfs" where
  "memfs_root = \<lparr>nodes = [[] \<mapsto> Dir], devices = Map.empty\<rparr>"

definition fresh :: "'a memfs \<Rightarrow> 'a memfs runtime" where
  "fresh fs = \<lparr>opfs_device_minor = None, FS = Some fs\<rparr>"

text \<open>
  The reference file system after lines 92 to 96: \<^verbatim>\<open>FS.mkdir(dirPath)\<close> with its
  exception dropped.
\<close>

definition after_mkdir :: "'a memfs \<Rightarrow> string \<Rightarrow> 'a memfs" where
  "after_mkdir fs path =
     (case memfs_mknod fs (dirPath path) Dir of
        Inl e \<Rightarrow> fs
      | Inr fs' \<Rightarrow> fs')"

text \<open>
  A path is mountable on a file system when \<^verbatim>\<open>FS.mkdev\<close> accepts it after the
  attempt to make its directory: the path does not resolve to the root, its parent is
  then a directory, and nothing is at the path. For a path whose last part is a name
  this says that nothing is at the path and that its parent directory exists or is
  absent with its own parent an existing directory (lemma \<open>mountable_name\<close> below).
\<close>

definition mountable :: "'a memfs \<Rightarrow> string \<Rightarrow> bool" where
  "mountable fs path \<longleftrightarrow>
     resolve_path path \<noteq> []
     \<and> nodes (after_mkdir fs path) (butlast (resolve_path path)) = Some Dir
     \<and> nodes (after_mkdir fs path) (resolve_path path) = None"


section \<open>The stream operations\<close>

subsection \<open>Facts on the in-memory access handle and on views\<close>

lemma mem_getSize_store:
  "ah_getSize mem_ops (mem_store bs) = Inr (int (length bs), mem_store bs)"
  by (simp add: mem_ops_def mem_getSize_def mem_store_def)

lemma mem_read_store:
  "0 \<le> at \<Longrightarrow> ah_read mem_ops (mem_store bs) view at =
     Inr (int (min (length view) (length (drop (nat at) bs))),
          take (min (length view) (length (drop (nat at) bs))) (drop (nat at) bs)
            @ drop (min (length view) (length (drop (nat at) bs))) view,
          mem_store bs)"
  by (simp add: mem_ops_def mem_read_def mem_store_def Let_def)

lemma mem_read_count:
  "ah_read mem_ops h view at = Inr (n, view', h') \<Longrightarrow> 0 \<le> n \<and> n \<le> int (length view)"
  by (auto simp add: mem_ops_def mem_read_def Let_def split: if_splits)

lemma mem_write_store:
  "0 \<le> at \<Longrightarrow> ah_write mem_ops (mem_store bs) view at =
     Inr (int (length view),
          mem_store (take (nat at) (bs @ replicate (nat at - length bs) 0) @ view
                     @ drop (nat at + length view) bs))"
  by (simp add: mem_ops_def mem_write_def mem_store_def Let_def)

text \<open>
  Within the bounds that the hosting layer guarantees, \<^verbatim>\<open>subarray(offset, offset +
  length)\<close> is the range of \<open>len\<close> bytes from \<open>offset\<close>; for any arguments the view is
  no longer than a non-negative \<open>len\<close>.
\<close>

lemma subarray_in_bounds:
  assumes "0 \<le> offset" and "0 \<le> len" and "offset + len \<le> int (length buffer)"
  shows "subarray (length buffer) offset (offset + len) = (nat offset, nat len)"
  using assms by (auto simp add: subarray_def relative_index_def Let_def min_def nat_diff_distrib)

lemma subarray_length_le:
  assumes "0 \<le> len"
  shows "int (snd (subarray n offset (offset + len))) \<le> len"
  using assms by (auto simp add: subarray_def relative_index_def Let_def min_def max_def)

lemma stored_region_length:
  "length (take (length view) view' @ drop (length view') view) = length view"
  by (simp add: min_def)

text \<open>Storing through a view changes the array inside the view only.\<close>

lemma store_view_confined:
  assumes "b + n \<le> length buffer"
  shows "length (store_view buffer (b, n) view') = length buffer"
    and "take b (store_view buffer (b, n) view') = take b buffer"
    and "drop (b + n) (store_view buffer (b, n) view') = drop (b + n) buffer"
proof -
  let ?view = "view_of buffer (b, n)"
  let ?region = "take (length ?view) view' @ drop (length view') ?view"
  have lv: "length ?view = n" using assms by (simp add: view_of_def)
  have lr: "length ?region = n" using stored_region_length [of ?view view'] lv by simp
  have sv: "store_view buffer (b, n) view' = take b buffer @ ?region @ drop (b + n) buffer"
    by (simp add: store_view_def Let_def lv)
  have lb: "length (take b buffer) = b" using assms by simp
  show "length (store_view buffer (b, n) view') = length buffer"
    unfolding sv using assms lr lb by (simp del: length_take length_drop append_assoc add: length_drop)
  show "take b (store_view buffer (b, n) view') = take b buffer"
    unfolding sv using lb by (simp del: length_take)
  have len: "length (take b buffer @ ?region) = b + n"
    using lb lr by (simp del: length_take)
  have "drop (b + n) ((take b buffer @ ?region) @ drop (b + n) buffer) = drop (b + n) buffer"
    by (metis len append_eq_conv_conj)
  then show "drop (b + n) (store_view buffer (b, n) view') = drop (b + n) buffer"
    unfolding sv by simp
qed

lemma origin_of_whence_cases:
  "origin_of_whence whence = Some START \<longleftrightarrow> whence = 0"
  "origin_of_whence whence = Some CURRENT \<longleftrightarrow> whence = 1"
  "origin_of_whence whence = Some END \<longleftrightarrow> whence = 2"
  by (simp_all add: origin_of_whence_def)

subsection \<open>open\<close>



subsection \<open>close\<close>

text \<open>
  Claim C9. For every stream, \<open>close\<close> always succeeds and leaves the backing store
  untouched. The statement holds for every access handle, whatever its methods do
  (also one whose state records the calls made on it): the operation returns 0 and
  hands back the handle state and the stream it was given, so no method of the handle
  (flush, close or any other) has been applied.
\<close>

theorem close_leaves_backing_store:
  "close ah h stream = Inr (0, h, stream)"
  by (simp add: close_def)

subsection \<open>llseek\<close>

text \<open>
  Claim C1, as the spec states it: \<open>llseek\<close> updates the stream's stored position to
  the new position and returns it. The source returns the new position and never
  assigns \<^verbatim>\<open>stream.position\<close>: seeking to 5 from the start returns 5 and leaves the
  stored position at 0.
\<close>

theorem llseek_updates_stream_counterexample:
  "llseek mem_ops (mem_store []) \<lparr>position = 0\<rparr> 5 0 = Inr (5, mem_store [], \<lparr>position = 0\<rparr>)
   \<and> position \<lparr>position = 0\<rparr> \<noteq> 5"
  by (simp add: llseek_def)

text \<open>
  Claim C1, amended: for every stream and every \<open>llseek\<close> call with a valid
  \<^verbatim>\<open>whence\<close> (0 for START, 1 for CURRENT, 2 for END, where for END the size query of
  the access handle returns), the operation returns the position that the seek-origin
  arithmetic of the spec gives, and leaves the stream's stored position unchanged:
  storing the returned position is left to the caller. The handle state is touched by
  the size query of END only.
\<close>

theorem llseek_returns_resolved_position:
  assumes "origin_of_whence whence = Some origin'"
    and "origin' = END \<longrightarrow> ah_getSize ah h = Inr (storeSize, h')"
  shows "llseek ah h stream offset whence =
           Inr (SeekCursor_resolve (position stream) offset origin' storeSize,
                if origin' = END then h' else h, stream)"
proof (cases origin')
  case START
  with assms(1) have "whence = 0" by (simp add: origin_of_whence_cases)
  with START show ?thesis by (simp add: llseek_def SeekCursor_resolve_def)
next
  case CURRENT
  with assms(1) have "whence = 1" by (simp add: origin_of_whence_cases)
  with CURRENT show ?thesis by (simp add: llseek_def SeekCursor_resolve_def)
next
  case END
  with assms(1) have "whence = 2" by (simp add: origin_of_whence_cases)
  with END assms(2) show ?thesis by (simp add: llseek_def SeekCursor_resolve_def)
qed

theorem llseek_returns_resolved_position_witness:
  "origin_of_whence 2 = Some END
   \<and> ah_getSize mem_ops (mem_store [1, 2, 3]) = Inr (3, mem_store [1, 2, 3])
   \<and> llseek mem_ops (mem_store [1, 2, 3]) \<lparr>position = 1\<rparr> 4 2
       = Inr (7, mem_store [1, 2, 3], \<lparr>position = 1\<rparr>)"
  using llseek_returns_resolved_position
    [of 2 END mem_ops "mem_store [1, 2, 3]" 3 "mem_store [1, 2, 3]" "\<lparr>position = 1\<rparr>" 4]
  by (simp add: origin_of_whence_def mem_getSize_store SeekCursor_resolve_def)

text \<open>
  Claim C2, as the spec states it: the resulting position is a non-negative integer.
  The source makes no check on the result: seeking to \<open>- 5\<close> from the start returns
  \<open>- 5\<close>.
\<close>

theorem llseek_nonnegative_counterexample:
  "llseek mem_ops (mem_store [1, 2, 3]) \<lparr>position = 0\<rparr> (- 5) 0
     = Inr (- 5, mem_store [1, 2, 3], \<lparr>position = 0\<rparr>)
   \<and> (- 5 :: int) < 0"
  by (simp add: llseek_def)

text \<open>
  Claim C2, amended: for every \<open>llseek\<close> call with a valid origin on a store whose
  size query returns \<open>storeSize\<close>, the call returns, and the resulting position is the
  arithmetic value, the origin's reference point plus the offset. It is never clamped
  to the store size (it exceeds the size whenever the arithmetic value does), and it
  is non-negative exactly when the offset is at least minus the reference point: a
  negative arithmetic value is returned as it is.
\<close>

theorem llseek_sign_and_no_clamp:
  assumes "origin_of_whence whence = Some origin'"
    and "ah_getSize ah h = Inr (storeSize, h')"
  shows "(case llseek ah h stream offset whence of
            Inl e \<Rightarrow> False
          | Inr (p, h'', s) \<Rightarrow>
              p = origin_base origin' (position stream) storeSize + offset
              \<and> (0 \<le> p \<longleftrightarrow> - origin_base origin' (position stream) storeSize \<le> offset)
              \<and> (storeSize < origin_base origin' (position stream) storeSize + offset
                   \<longrightarrow> storeSize < p))"
proof (cases origin')
  case START
  with assms(1) have "whence = 0" by (simp add: origin_of_whence_cases)
  with START show ?thesis by (simp add: llseek_def origin_base_def)
next
  case CURRENT
  with assms(1) have "whence = 1" by (simp add: origin_of_whence_cases)
  with CURRENT show ?thesis by (auto simp add: llseek_def origin_base_def)
next
  case END
  with assms(1) have "whence = 2" by (simp add: origin_of_whence_cases)
  with END assms(2) show ?thesis by (auto simp add: llseek_def origin_base_def)
qed

theorem llseek_sign_and_no_clamp_witness:
  "origin_of_whence 1 = Some CURRENT
   \<and> ah_getSize mem_ops (mem_store [1, 2, 3]) = Inr (3, mem_store [1, 2, 3])
   \<and> llseek mem_ops (mem_store [1, 2, 3]) \<lparr>position = 2\<rparr> 10 1
       = Inr (12, mem_store [1, 2, 3], \<lparr>position = 2\<rparr>)
   \<and> origin_base CURRENT 2 3 + 10 = 12 \<and> (3::int) < 12"
  using llseek_sign_and_no_clamp
    [of 1 CURRENT mem_ops "mem_store [1, 2, 3]" 3 "mem_store [1, 2, 3]" "\<lparr>position = 2\<rparr>" 10]
  by (simp add: origin_of_whence_def mem_getSize_store llseek_def origin_base_def)

text \<open>
  Claim C8. The hosting layer stores the position that \<open>llseek\<close> returns in the stream
  before the next call; the stream operation itself leaves the stream as it is. For
  every stream on a store whose size query, made by the first seek on the handle state
  of that moment, returns \<open>S\<close>, and every \<open>k\<close> with \<open>0 \<le> k \<le> S\<close>: \<open>llseek(0, END)\<close>
  returns \<open>S\<close>, and \<open>llseek(-k, CURRENT)\<close> on the stream holding that position returns
  \<open>S - k\<close>, which lies between 0 and \<open>S\<close>.
\<close>

theorem seek_round_trip_with_stored_position:
  assumes "ah_getSize ah h = Inr (S, h1)" and "0 \<le> k" and "k \<le> S"
  shows "llseek ah h stream 0 2 = Inr (S, h1, stream)
         \<and> llseek ah h1 (stream\<lparr>position := S\<rparr>) (- k) 1
             = Inr (S - k, h1, stream\<lparr>position := S\<rparr>)
         \<and> 0 \<le> S - k \<and> S - k \<le> S"
  using assms by (simp add: llseek_def)

text \<open>
  The witness seeks after a write has grown the store from 2 to 5 bytes: END is
  relative to the size at the time of the seek.
\<close>

theorem seek_round_trip_with_stored_position_witness:
  "write_op mem_ops (mem_store [1, 2]) \<lparr>position = 0\<rparr> [7, 8, 9] 0 3 2
     = Inr (3, [7, 8, 9], mem_store [1, 2, 7, 8, 9], \<lparr>position = 0\<rparr>)
   \<and> ah_getSize mem_ops (mem_store [1, 2, 7, 8, 9]) = Inr (5, mem_store [1, 2, 7, 8, 9])
   \<and> llseek mem_ops (mem_store [1, 2, 7, 8, 9]) \<lparr>position = 0\<rparr> 0 2
       = Inr (5, mem_store [1, 2, 7, 8, 9], \<lparr>position = 0\<rparr>)
   \<and> llseek mem_ops (mem_store [1, 2, 7, 8, 9]) \<lparr>position = 5\<rparr> (- 2) 1
       = Inr (3, mem_store [1, 2, 7, 8, 9], \<lparr>position = 5\<rparr>)"
  using seek_round_trip_with_stored_position
    [of mem_ops "mem_store [1, 2, 7, 8, 9]" 5 "mem_store [1, 2, 7, 8, 9]" 2 "\<lparr>position = 0\<rparr>"]
  by (simp add: mem_getSize_store mem_write_store write_op_def subarray_def
      relative_index_def view_of_def)

subsection \<open>read and write\<close>

text \<open>
  Claim C6. For every \<open>read\<close> and \<open>write\<close> call whose range lies within the buffer
  (the hosting layer guarantees \<open>0 \<le> offset\<close>, \<open>0 \<le> length\<close> and \<open>offset + length\<close>
  within the buffer), the operation makes one call of the access handle, on exactly
  the \<open>len\<close> bytes of the buffer from \<open>offset\<close> and at the position given as argument;
  the stream is neither read nor changed, and the completion of the handle's call is
  handed on as it is: its exception, or its byte count unmodified. Nothing is kept
  between calls: the operation has no state but the handle's. For \<open>read\<close> the count
  lies in \<open>0..len\<close> whenever the handle's read keeps to its contract and transfers
  between 0 bytes and the length of the view it is given.
\<close>

theorem read_write_pass_through:
  assumes "0 \<le> offset" and "0 \<le> len" and "offset + len \<le> int (length buffer)"
  shows "read ah h stream buffer offset len pos =
           (case ah_read ah h (take (nat len) (drop (nat offset) buffer)) pos of
              Inl e \<Rightarrow> Inl e
            | Inr (n, view', h') \<Rightarrow>
                Inr (n, store_view buffer (nat offset, nat len) view', h', stream))
         \<and> write_op ah h stream buffer offset len pos =
           (case ah_write ah h (take (nat len) (drop (nat offset) buffer)) pos of
              Inl e \<Rightarrow> Inl e
            | Inr (n, h') \<Rightarrow> Inr (n, buffer, h', stream))
         \<and> int (length (take (nat len) (drop (nat offset) buffer))) = len
         \<and> ((\<forall>n view' h'. ah_read ah h (take (nat len) (drop (nat offset) buffer)) pos
                 = Inr (n, view', h')
               \<longrightarrow> 0 \<le> n \<and> n \<le> int (length (take (nat len) (drop (nat offset) buffer))))
             \<longrightarrow> (\<forall>n b h' s. read ah h stream buffer offset len pos = Inr (n, b, h', s)
                   \<longrightarrow> 0 \<le> n \<and> n \<le> len))"
proof -
  let ?view = "take (nat len) (drop (nat offset) buffer)"
  have r: "subarray (length buffer) offset (offset + len) = (nat offset, nat len)"
    using assms by (rule subarray_in_bounds)
  have v: "view_of buffer (nat offset, nat len) = ?view"
    by (simp add: view_of_def)
  have rd: "read ah h stream buffer offset len pos =
           (case ah_read ah h ?view pos of
              Inl e \<Rightarrow> Inl e
            | Inr (n, view', h') \<Rightarrow>
                Inr (n, store_view buffer (nat offset, nat len) view', h', stream))"
    by (simp add: read_def r v)
  have wr: "write_op ah h stream buffer offset len pos =
           (case ah_write ah h ?view pos of
              Inl e \<Rightarrow> Inl e
            | Inr (n, h') \<Rightarrow> Inr (n, buffer, h', stream))"
    by (simp add: write_op_def r v)
  have ln: "int (length ?view) = len"
    using assms by simp
  have rng: "(\<forall>n view' h'. ah_read ah h ?view pos = Inr (n, view', h')
               \<longrightarrow> 0 \<le> n \<and> n \<le> int (length ?view))
             \<longrightarrow> (\<forall>n b h' s. read ah h stream buffer offset len pos = Inr (n, b, h', s)
                   \<longrightarrow> 0 \<le> n \<and> n \<le> len)"
    unfolding rd ln by (auto split: sum.splits)
  from rd wr ln rng show ?thesis by blast
qed

theorem read_write_pass_through_witness:
  "(0::int) \<le> 1 \<and> (0::int) \<le> 3 \<and> (1::int) + 3 \<le> int (length [0, 0, 0, 0, 0, 0 :: byte])
   \<and> read mem_ops (mem_store [10, 20, 30]) \<lparr>position = 5\<rparr> [0, 0, 0, 0, 0, 0] 1 3 1
       = Inr (2, [0, 20, 30, 0, 0, 0], mem_store [10, 20, 30], \<lparr>position = 5\<rparr>)
   \<and> write_op mem_ops (mem_store [10, 20, 30]) \<lparr>position = 5\<rparr> [1, 2, 3, 4, 5, 6] 1 3 2
       = Inr (3, [1, 2, 3, 4, 5, 6], mem_store [10, 20, 2, 3, 4], \<lparr>position = 5\<rparr>)"
proof -
  have b: "(0::int) \<le> 1" "(0::int) \<le> 3"
    and b0: "(1::int) + 3 \<le> int (length [0, 0, 0, 0, 0, 0 :: byte])"
    and b1: "(1::int) + 3 \<le> int (length [1, 2, 3, 4, 5, 6 :: byte])"
    by simp_all
  have rd: "read mem_ops (mem_store [10, 20, 30]) \<lparr>position = 5\<rparr> [0, 0, 0, 0, 0, 0] 1 3 1
       = Inr (2, [0, 20, 30, 0, 0, 0], mem_store [10, 20, 30], \<lparr>position = 5\<rparr>)"
    using read_write_pass_through
      [OF b b0, of mem_ops "mem_store [10, 20, 30]" "\<lparr>position = 5\<rparr>" 1, THEN conjunct1]
    by (simp add: mem_read_store store_view_def view_of_def)
  have wr: "write_op mem_ops (mem_store [10, 20, 30]) \<lparr>position = 5\<rparr> [1, 2, 3, 4, 5, 6] 1 3 2
       = Inr (3, [1, 2, 3, 4, 5, 6], mem_store [10, 20, 2, 3, 4], \<lparr>position = 5\<rparr>)"
    using read_write_pass_through
      [OF b b1, of mem_ops "mem_store [10, 20, 30]" "\<lparr>position = 5\<rparr>" 2,
        THEN conjunct2, THEN conjunct1]
    by (simp add: mem_write_store)
  from b b0 rd wr show ?thesis by blast
qed

section \<open>Registering a device\<close>

subsection \<open>Facts on splitting and resolving paths\<close>

lemma js_split_not_Nil: "js_split c s \<noteq> []"
  by (induction s) (simp_all split: list.splits)

lemma js_split_no_sep: "w \<in> set (js_split c s) \<Longrightarrow> c \<notin> set w"
proof (induction s arbitrary: w)
  case Nil
  then show ?case by simp
next
  case (Cons x xs)
  obtain v vs where vs: "js_split c xs = v # vs"
    using js_split_not_Nil [of c xs] by (cases "js_split c xs") auto
  show ?case
  proof (cases "x = c")
    case True
    with Cons show ?thesis by auto
  next
    case False
    with Cons.prems vs have "w = x # v \<or> w \<in> set vs" by simp
    moreover have "c \<notin> set v" "\<And>u. u \<in> set vs \<Longrightarrow> c \<notin> set u"
      using Cons.IH vs by simp_all
    ultimately show ?thesis using False by auto
  qed
qed

lemma js_split_no_sep_word: "c \<notin> set w \<Longrightarrow> js_split c w = [w]"
  by (induction w) auto

lemma js_split_join:
  assumes "ws \<noteq> []" and "\<forall>w \<in> set ws. c \<notin> set w"
  shows "js_split c (js_join c ws) = ws"
  using assms
proof (induction c ws rule: js_join.induct)
  case (1 c)
  then show ?case by simp
next
  case (2 c w)
  then show ?case by (simp add: js_split_no_sep_word)
next
  case (3 c w v vs)
  have tl: "js_split c (js_join c (v # vs)) = v # vs"
    using 3 by simp
  have "c \<notin> set w" using 3 by simp
  then have "js_split c (w @ c # js_join c (v # vs)) = w # js_split c (js_join c (v # vs))"
    by (induction w) auto
  with tl show ?case by simp
qed

lemma js_join_Nil_iff: "js_join c ws = [] \<longleftrightarrow> ws = [] \<or> ws = [[]]"
  by (induction c ws rule: js_join.induct) simp_all

lemma filter_split_dirPath:
  "filter (\<lambda>p. p \<noteq> []) (js_split CHR ''/'' (dirPath path))
     = filter (\<lambda>p. p \<noteq> []) (butlast (js_split CHR ''/'' path))"
proof -
  let ?parts = "butlast (js_split CHR ''/'' path)"
  show ?thesis
  proof (cases "js_join CHR ''/'' ?parts = []")
    case True
    then have "?parts = [] \<or> ?parts = [[]]" by (simp add: js_join_Nil_iff)
    moreover from True have "dirPath path = ''/''" by (simp add: dirPath_def)
    ultimately show ?thesis by auto
  next
    case False
    then have ne: "?parts \<noteq> []" by auto
    have "\<forall>w \<in> set ?parts. CHR ''/'' \<notin> set w"
      using js_split_no_sep [of _ "CHR ''/''" path] by (auto dest: in_set_butlastD)
    with ne have "js_split CHR ''/'' (js_join CHR ''/'' ?parts) = ?parts"
      by (rule js_split_join)
    with False show ?thesis by (simp add: dirPath_def)
  qed
qed

lemma resolve_path_leaf:
  assumes "fileName path \<noteq> []" and "fileName path \<noteq> ''.''" and "fileName path \<noteq> ''..''"
  shows "resolve_path path = resolve_path (dirPath path) @ [fileName path]"
proof -
  let ?parts = "js_split CHR ''/'' path"
  have sp: "?parts = butlast ?parts @ [fileName path]"
    by (simp add: fileName_def js_split_not_Nil)
  have "filter (\<lambda>p. p \<noteq> []) ?parts
          = filter (\<lambda>p. p \<noteq> []) (butlast ?parts) @ [fileName path]"
    using assms(1) by (subst sp) simp
  then have "resolve_path path
          = rev (normalize_rev 0 (fileName path # rev (filter (\<lambda>p. p \<noteq> []) (butlast ?parts))))"
    by (simp add: resolve_path_def)
  also have "\<dots> = rev (normalize_rev 0 (rev (filter (\<lambda>p. p \<noteq> []) (butlast ?parts)))) @ [fileName path]"
    using assms by simp
  finally show ?thesis
    by (simp add: resolve_path_def filter_split_dirPath)
qed

subsection \<open>Facts on the reference file system\<close>


lemma counter_Some: "opfs_device_minor st = Some n \<Longrightarrow> counter st = n"
  by (simp add: counter_def)

lemma device_identity_eq: "device_identity st = (80, counter st + 1)"
  by (simp add: device_identity_def Let_def)

lemma memfs_mknod_ok:
  assumes "resolve_path p \<noteq> []" and "nodes fs (butlast (resolve_path p)) = Some Dir"
    and "nodes fs (resolve_path p) = None"
  shows "memfs_mknod fs p n = Inr (fs\<lparr>nodes := (nodes fs)(resolve_path p \<mapsto> n)\<rparr>)"
  using assms by (simp add: memfs_mknod_def Let_def)

lemma memfs_mknod_Inr:
  assumes "memfs_mknod fs p n = Inr fs'"
  shows "nodes fs (resolve_path p) = None \<and> fs' = fs\<lparr>nodes := (nodes fs)(resolve_path p \<mapsto> n)\<rparr>"
  using assms by (auto simp add: memfs_mknod_def Let_def split: if_splits option.splits node.splits)


lemma memfs_mknod_not_dir:
  assumes "resolve_path p \<noteq> []" and "nodes fs (butlast (resolve_path p)) = Some m" and "m \<noteq> Dir"
  shows "memfs_mknod fs p n = Inl (ErrnoError EACCES)"
  using assms by (cases m) (simp_all add: memfs_mknod_def Let_def)

lemma memfs_mknod_no_parent:
  assumes "resolve_path p \<noteq> []" and "nodes fs (butlast (resolve_path p)) = None"
  shows "memfs_mknod fs p n = Inl (ErrnoError ENOENT)"
  using assms by (simp add: memfs_mknod_def Let_def)

lemma registerOpfsFile_memfs:
  assumes "FS st = Some fs"
  shows "registerOpfsFile memfs_ops st path a =
    (let minor = snd (device_identity st);
         dev = memfs_makedev 80 minor;
         st1 = st\<lparr>opfs_device_minor := Some minor\<rparr>;
         fs2 = after_mkdir (fs\<lparr>devices := (devices fs)(dev \<mapsto> a)\<rparr>) path
     in case memfs_mknod fs2 path (Dev dev) of
          Inl e \<Rightarrow> ((Inr False, [Failed_to_register e]), st1\<lparr>FS := Some fs2\<rparr>)
        | Inr fs3 \<Rightarrow> ((Inr True, []), st1\<lparr>FS := Some fs3\<rparr>))"
  using assms
  by (simp add: registerOpfsFile_def try_body_def memfs_ops_def memfs_registerDevice_def
      device_identity_eq after_mkdir_def Let_def split: sum.splits)


lemma after_mkdir_exists:
  assumes "nodes fs (resolve_path (dirPath path)) = Some m"
  shows "after_mkdir fs path = fs"
proof (cases "memfs_mknod fs (dirPath path) Dir")
  case (Inl e)
  then show ?thesis by (simp add: after_mkdir_def)
next
  case (Inr fs')
  from memfs_mknod_Inr [OF Inr] assms show ?thesis by simp
qed

lemma after_mkdir_creates:
  assumes "resolve_path (dirPath path) \<noteq> []"
    and "nodes fs (resolve_path (dirPath path)) = None"
    and "nodes fs (butlast (resolve_path (dirPath path))) = Some Dir"
  shows "after_mkdir fs path = fs\<lparr>nodes := (nodes fs)(resolve_path (dirPath path) \<mapsto> Dir)\<rparr>"
  using assms by (simp add: after_mkdir_def memfs_mknod_ok)

lemma example_paths:
  "resolve_path ''/'' = []"
  "resolve_path ''/a.mp4'' = [''a.mp4'']" "dirPath ''/a.mp4'' = ''/''" "fileName ''/a.mp4'' = ''a.mp4''"
  "resolve_path ''/x'' = [''x'']" "dirPath ''/x'' = ''/''"
  "resolve_path ''/a/b/y'' = [''a'', ''b'', ''y'']" "dirPath ''/a/b/y'' = ''/a/b''"
  "fileName ''/a/b/y'' = ''y''"
  "resolve_path ''/a/b'' = [''a'', ''b'']"
  "resolve_path ''/f'' = [''f'']" "dirPath ''/f'' = ''/''" "fileName ''/f'' = ''f''"
  "resolve_path ''/d/x'' = [''d'', ''x'']" "dirPath ''/d/x'' = ''/d''" "fileName ''/d/x'' = ''x''"
  "resolve_path ''/d/y'' = [''d'', ''y'']" "dirPath ''/d/y'' = ''/d''" "fileName ''/d/y'' = ''y''"
  "resolve_path ''/d'' = [''d'']"
  "resolve_path ''/f/g'' = [''f'', ''g'']" "dirPath ''/f/g'' = ''/f''" "fileName ''/f/g'' = ''g''"
  by (simp_all add: resolve_path_def dirPath_def fileName_def)

lemma example_devices:
  "memfs_makedev 80 1 = 20481" "memfs_makedev 80 2 = 20482" "memfs_makedev 80 3 = 20483"
  by (simp_all add: memfs_makedev_def)

lemmas example_simps =
  example_paths example_devices registerOpfsFile_memfs fresh_def memfs_root_def after_mkdir_def
  memfs_mknod_def device_identity_eq counter_def Let_def

subsection \<open>Device numbers\<close>





lemma makedev_minor_overflow:
  "memfs_makedev 80 256 = 81 * 256" "memfs_makedev 80 4097 = memfs_makedev 80 1"
  by (simp_all add: memfs_makedev_def)

subsection \<open>The completion of registerOpfsFile\<close>

text \<open>
  Claim C10. For every input and every file system, \<open>registerOpfsFile\<close> never completes
  with an exception: it returns \<open>true\<close> or \<open>false\<close>. When the file system is unavailable
  it returns \<open>false\<close> and the state is the state it was called in (one line is printed).
  It returns \<open>true\<close> exactly when the registration completed, that is, when the file
  system is available, \<^verbatim>\<open>FS.registerDevice\<close> returned, and \<^verbatim>\<open>FS.mkdev\<close>, called on
  the file system as \<^verbatim>\<open>FS.mkdir\<close> left it, returned; it then prints nothing and
  leaves the file system that \<^verbatim>\<open>FS.mkdev\<close> returned. When \<^verbatim>\<open>FS.registerDevice\<close> or
  \<^verbatim>\<open>FS.mkdev\<close> throws, it returns \<open>false\<close>, prints the exception, and keeps what the
  calls before the throw have done.
\<close>

theorem registerOpfsFile_returns_boolean:
  "(fst (fst (registerOpfsFile ops st path a)) = Inr True
      \<or> fst (fst (registerOpfsFile ops st path a)) = Inr False)
   \<and> (FS st = None \<longrightarrow>
         registerOpfsFile ops st path a = ((Inr False, [FS_not_initialized]), st))
   \<and> (fst (fst (registerOpfsFile ops st path a)) = Inr True \<longleftrightarrow>
        (\<exists>fs fs1 fs3.
           FS st = Some fs
           \<and> registerDevice ops fs (makedev ops 80 (counter st + 1)) a = Inr fs1
           \<and> mkdev ops (case mkdir ops fs1 (dirPath path) of Inl e \<Rightarrow> fs1 | Inr fs2 \<Rightarrow> fs2)
                path (makedev ops 80 (counter st + 1)) = Inr fs3))
   \<and> (\<forall>fs fs1 fs3.
         FS st = Some fs
         \<and> registerDevice ops fs (makedev ops 80 (counter st + 1)) a = Inr fs1
         \<and> mkdev ops (case mkdir ops fs1 (dirPath path) of Inl e \<Rightarrow> fs1 | Inr fs2 \<Rightarrow> fs2)
              path (makedev ops 80 (counter st + 1)) = Inr fs3
         \<longrightarrow> registerOpfsFile ops st path a =
               ((Inr True, []), st\<lparr>opfs_device_minor := Some (counter st + 1), FS := Some fs3\<rparr>))
   \<and> (\<forall>fs e.
         FS st = Some fs
         \<and> registerDevice ops fs (makedev ops 80 (counter st + 1)) a = Inl e
         \<longrightarrow> registerOpfsFile ops st path a =
               ((Inr False, [Failed_to_register e]),
                st\<lparr>opfs_device_minor := Some (counter st + 1)\<rparr>))
   \<and> (\<forall>fs fs1 e.
         FS st = Some fs
         \<and> registerDevice ops fs (makedev ops 80 (counter st + 1)) a = Inr fs1
         \<and> mkdev ops (case mkdir ops fs1 (dirPath path) of Inl e \<Rightarrow> fs1 | Inr fs2 \<Rightarrow> fs2)
              path (makedev ops 80 (counter st + 1)) = Inl e
         \<longrightarrow> registerOpfsFile ops st path a =
               ((Inr False, [Failed_to_register e]),
                st\<lparr>opfs_device_minor := Some (counter st + 1),
                   FS := Some (case mkdir ops fs1 (dirPath path) of
                                 Inl e \<Rightarrow> fs1
                               | Inr fs2 \<Rightarrow> fs2)\<rparr>))"
proof (cases "FS st")
  case None
  then show ?thesis by (simp add: registerOpfsFile_def)
next
  case (Some fs)
  let ?dev = "makedev ops 80 (counter st + 1)"
  show ?thesis
  proof (cases "registerDevice ops fs ?dev a")
    case (Inl e)
    with Some show ?thesis
      by (simp add: registerOpfsFile_def try_body_def device_identity_eq)
  next
    case (Inr fs1)
    let ?fs2 = "case mkdir ops fs1 (dirPath path) of Inl e \<Rightarrow> fs1 | Inr fs2 \<Rightarrow> fs2"
    show ?thesis
    proof (cases "mkdev ops ?fs2 path ?dev")
      case (Inl e)
      with Some Inr show ?thesis
        by (simp add: registerOpfsFile_def try_body_def device_identity_eq)
    next
      case fs3: (Inr fs3)
      with Some Inr show ?thesis
        by (simp add: registerOpfsFile_def try_body_def device_identity_eq)
    qed
  qed
qed

theorem registerOpfsFile_returns_boolean_witness:
  "registerOpfsFile memfs_ops \<lparr>opfs_device_minor = Some 4, FS = None\<rparr> ''/f'' (1::nat)
       = ((Inr False, [FS_not_initialized]), \<lparr>opfs_device_minor = Some 4, FS = None\<rparr>)
   \<and> registerOpfsFile memfs_ops (fresh memfs_root) ''/f'' (1::nat)
       = ((Inr True, []),
          \<lparr>opfs_device_minor = Some 1,
           FS = Some \<lparr>nodes = [[] \<mapsto> Dir, [''f''] \<mapsto> Dev 20481], devices = [20481 \<mapsto> 1]\<rparr>\<rparr>)
   \<and> registerOpfsFile memfs_ops (fresh memfs_root) ''/a/b/y'' (1::nat)
       = ((Inr False, [Failed_to_register (ErrnoError ENOENT)]),
          \<lparr>opfs_device_minor = Some 1,
           FS = Some \<lparr>nodes = [[] \<mapsto> Dir], devices = [20481 \<mapsto> 1]\<rparr>\<rparr>)"
proof -
  let ?none = "\<lparr>opfs_device_minor = Some 4, FS = (None :: nat memfs option)\<rparr>"
  have n: "registerOpfsFile memfs_ops ?none ''/f'' (1::nat)
       = ((Inr False, [FS_not_initialized]), ?none)"
    using registerOpfsFile_returns_boolean [of memfs_ops ?none "''/f''" 1,
        THEN conjunct2, THEN conjunct1]
    by simp
  have ok: "registerOpfsFile memfs_ops (fresh memfs_root) ''/f'' (1::nat)
       = ((Inr True, []),
          \<lparr>opfs_device_minor = Some 1,
           FS = Some \<lparr>nodes = [[] \<mapsto> Dir, [''f''] \<mapsto> Dev 20481], devices = [20481 \<mapsto> 1]\<rparr>\<rparr>)"
    using registerOpfsFile_returns_boolean [of memfs_ops "fresh memfs_root" "''/f''" "1::nat",
        THEN conjunct2, THEN conjunct2, THEN conjunct2, THEN conjunct1,
        THEN spec, THEN spec, THEN spec,
        of memfs_root "memfs_root\<lparr>devices := [20481 \<mapsto> 1]\<rparr>"
          "\<lparr>nodes = [[] \<mapsto> Dir, [''f''] \<mapsto> Dev 20481], devices = [20481 \<mapsto> 1]\<rparr>"]
    by (simp add: example_paths example_devices fresh_def memfs_root_def memfs_ops_def
        memfs_registerDevice_def memfs_mknod_def counter_def)
  have bad: "registerOpfsFile memfs_ops (fresh memfs_root) ''/a/b/y'' (1::nat)
       = ((Inr False, [Failed_to_register (ErrnoError ENOENT)]),
          \<lparr>opfs_device_minor = Some 1,
           FS = Some \<lparr>nodes = [[] \<mapsto> Dir], devices = [20481 \<mapsto> 1]\<rparr>\<rparr>)"
    using registerOpfsFile_returns_boolean [of memfs_ops "fresh memfs_root" "''/a/b/y''" "1::nat",
        THEN conjunct2, THEN conjunct2, THEN conjunct2, THEN conjunct2, THEN conjunct2,
        THEN spec, THEN spec, THEN spec,
        of memfs_root "memfs_root\<lparr>devices := [20481 \<mapsto> 1]\<rparr>" "ErrnoError ENOENT"]
    by (simp add: example_paths example_devices fresh_def memfs_root_def memfs_ops_def
        memfs_registerDevice_def memfs_mknod_def counter_def)
  from n ok bad show ?thesis by blast
qed

subsection \<open>The parent directory\<close>

text \<open>
  Claim C5, as the spec states it: if the parent directory is absent it is created.
  \<^verbatim>\<open>FS.mkdir\<close> creates one directory, not its ancestors: for \<^verbatim>\<open>/a/b/y\<close> on a
  file system that holds the root only, the parent \<^verbatim>\<open>/a/b\<close> is absent before the
  call and absent after it, and the call returns \<open>false\<close>.
\<close>

theorem parent_directory_created_counterexample:
  "nodes (memfs_root :: nat memfs) (resolve_path (dirPath ''/a/b/y'')) = None
   \<and> registerOpfsFile memfs_ops (fresh memfs_root) ''/a/b/y'' (1::nat)
       = ((Inr False, [Failed_to_register (ErrnoError ENOENT)]),
          \<lparr>opfs_device_minor = Some 1,
           FS = Some \<lparr>nodes = [[] \<mapsto> Dir], devices = [20481 \<mapsto> 1]\<rparr>\<rparr>)
   \<and> [[] \<mapsto> Dir] (resolve_path (dirPath ''/a/b/y'')) = None"
  by (simp add: example_simps)

text \<open>
  Claim C5, amended: for every mount call on the reference file system whose path ends
  in a name, (a) if the parent directory already exists, the exception of
  \<^verbatim>\<open>FS.mkdir\<close> is dropped and the mount proceeds: at an unoccupied path it returns
  \<open>true\<close> and binds the device node, printing nothing; (b) if the parent directory is
  absent and its own parent is an existing directory, it is created, and the mount at
  the unoccupied path returns \<open>true\<close>; (c) if a non-directory entry occupies the parent
  path, the mount fails: it returns \<open>false\<close>, the file system's error is printed and
  the tree is unchanged; (d) if the parent directory is absent and its own parent is
  not an existing directory, the parent is not created and the mount fails in the same
  way. The source has no error type of its own: failure is the boolean.
\<close>

theorem parent_directory_handling:
  assumes "FS st = Some fs"
    and "fileName path \<noteq> []" and "fileName path \<noteq> ''.''" and "fileName path \<noteq> ''..''"
  shows "(nodes fs (resolve_path (dirPath path)) = Some Dir
            \<and> nodes fs (resolve_path path) = None
          \<longrightarrow> registerOpfsFile memfs_ops st path a =
                ((Inr True, []),
                 st\<lparr>opfs_device_minor := Some (counter st + 1),
                    FS := Some (fs\<lparr>devices := (devices fs)
                                   (memfs_makedev 80 (counter st + 1) \<mapsto> a),
                                 nodes := (nodes fs)
                                   (resolve_path path \<mapsto>
                                      Dev (memfs_makedev 80 (counter st + 1)))\<rparr>)\<rparr>))
         \<and> (resolve_path (dirPath path) \<noteq> []
            \<and> nodes fs (resolve_path (dirPath path)) = None
            \<and> nodes fs (butlast (resolve_path (dirPath path))) = Some Dir
            \<and> nodes fs (resolve_path path) = None
          \<longrightarrow> registerOpfsFile memfs_ops st path a =
                ((Inr True, []),
                 st\<lparr>opfs_device_minor := Some (counter st + 1),
                    FS := Some (fs\<lparr>devices := (devices fs)
                                   (memfs_makedev 80 (counter st + 1) \<mapsto> a),
                                 nodes := (nodes fs)
                                   (resolve_path (dirPath path) \<mapsto> Dir,
                                    resolve_path path \<mapsto>
                                      Dev (memfs_makedev 80 (counter st + 1)))\<rparr>)\<rparr>))
         \<and> ((\<exists>m. nodes fs (resolve_path (dirPath path)) = Some m \<and> m \<noteq> Dir)
          \<longrightarrow> (\<exists>e. registerOpfsFile memfs_ops st path a =
                ((Inr False, [Failed_to_register e]),
                 st\<lparr>opfs_device_minor := Some (counter st + 1),
                    FS := Some (fs\<lparr>devices := (devices fs)
                                   (memfs_makedev 80 (counter st + 1) \<mapsto> a)\<rparr>)\<rparr>)))
         \<and> (nodes fs (resolve_path (dirPath path)) = None
            \<and> (resolve_path (dirPath path) = []
               \<or> nodes fs (butlast (resolve_path (dirPath path))) \<noteq> Some Dir)
          \<longrightarrow> (\<exists>e. registerOpfsFile memfs_ops st path a =
                ((Inr False, [Failed_to_register e]),
                 st\<lparr>opfs_device_minor := Some (counter st + 1),
                    FS := Some (fs\<lparr>devices := (devices fs)
                                   (memfs_makedev 80 (counter st + 1) \<mapsto> a)\<rparr>)\<rparr>)))"
proof -
  let ?dev = "memfs_makedev 80 (counter st + 1)"
  let ?fs1 = "fs\<lparr>devices := (devices fs)(?dev \<mapsto> a)\<rparr>"
  let ?d = "resolve_path (dirPath path)"
  let ?cs = "resolve_path path"
  have cs: "?cs = ?d @ [fileName path]"
    using assms(2-4) by (rule resolve_path_leaf)
  then have bl: "butlast ?cs = ?d" and ne: "?cs \<noteq> []" by simp_all
  note reg = registerOpfsFile_memfs [OF assms(1), unfolded device_identity_eq snd_conv]
  have exists: "registerOpfsFile memfs_ops st path a =
      ((Inr True, []),
       st\<lparr>opfs_device_minor := Some (counter st + 1),
          FS := Some (fs\<lparr>devices := (devices fs)(?dev \<mapsto> a),
                       nodes := (nodes fs)(?cs \<mapsto> Dev ?dev)\<rparr>)\<rparr>)"
    if "nodes fs ?d = Some Dir" and "nodes fs ?cs = None"
  proof -
    have "after_mkdir ?fs1 path = ?fs1"
      using that(1) by (intro after_mkdir_exists [where m = Dir]) simp
    moreover have "memfs_mknod ?fs1 path (Dev ?dev)
        = Inr (?fs1\<lparr>nodes := (nodes ?fs1)(?cs \<mapsto> Dev ?dev)\<rparr>)"
      using ne that by (intro memfs_mknod_ok) (simp_all add: bl)
    ultimately show ?thesis
      by (simp add: reg Let_def)
  qed
  have absent: "registerOpfsFile memfs_ops st path a =
      ((Inr True, []),
       st\<lparr>opfs_device_minor := Some (counter st + 1),
          FS := Some (fs\<lparr>devices := (devices fs)(?dev \<mapsto> a),
                       nodes := (nodes fs)(?d \<mapsto> Dir, ?cs \<mapsto> Dev ?dev)\<rparr>)\<rparr>)"
    if "?d \<noteq> []" and "nodes fs ?d = None" and "nodes fs (butlast ?d) = Some Dir"
      and "nodes fs ?cs = None"
  proof -
    let ?fs2 = "?fs1\<lparr>nodes := (nodes ?fs1)(?d \<mapsto> Dir)\<rparr>"
    have m: "after_mkdir ?fs1 path = ?fs2"
      using that(1-3) by (intro after_mkdir_creates) simp_all
    have "?cs \<noteq> ?d" using cs by simp
    then have "memfs_mknod ?fs2 path (Dev ?dev)
        = Inr (?fs2\<lparr>nodes := (nodes ?fs2)(?cs \<mapsto> Dev ?dev)\<rparr>)"
      using ne that(4) by (intro memfs_mknod_ok) (simp_all add: bl)
    with m show ?thesis
      by (simp add: reg Let_def)
  qed
  have occupied: "registerOpfsFile memfs_ops st path a =
      ((Inr False, [Failed_to_register (ErrnoError EACCES)]),
       st\<lparr>opfs_device_minor := Some (counter st + 1), FS := Some ?fs1\<rparr>)"
    if "nodes fs ?d = Some m" and "m \<noteq> Dir" for m
  proof -
    have "after_mkdir ?fs1 path = ?fs1"
      using that(1) by (intro after_mkdir_exists [where m = m]) simp
    moreover have "memfs_mknod ?fs1 path (Dev ?dev) = Inl (ErrnoError EACCES)"
      using ne that by (intro memfs_mknod_not_dir [where m = m]) (simp_all add: bl)
    ultimately show ?thesis
      by (simp add: reg Let_def)
  qed
  have missing: "registerOpfsFile memfs_ops st path a =
      ((Inr False, [Failed_to_register (ErrnoError ENOENT)]),
       st\<lparr>opfs_device_minor := Some (counter st + 1), FS := Some ?fs1\<rparr>)"
    if "nodes fs ?d = None" and "?d = [] \<or> nodes fs (butlast ?d) \<noteq> Some Dir"
  proof -
    have "\<exists>e. memfs_mknod ?fs1 (dirPath path) Dir = Inl e"
      using that(2)
      by (auto simp add: memfs_mknod_def Let_def split: option.splits node.splits)
    then have "after_mkdir ?fs1 path = ?fs1"
      by (auto simp add: after_mkdir_def)
    moreover have "memfs_mknod ?fs1 path (Dev ?dev) = Inl (ErrnoError ENOENT)"
      using ne that(1) by (intro memfs_mknod_no_parent) (simp_all add: bl)
    ultimately show ?thesis
      by (simp add: reg Let_def)
  qed
  from exists absent occupied missing show ?thesis by blast
qed

theorem parent_directory_handling_witness:
  "registerOpfsFile memfs_ops (fresh memfs_root) ''/f'' (1::nat)
     = ((Inr True, []),
        \<lparr>opfs_device_minor = Some 1,
         FS = Some \<lparr>nodes = [[] \<mapsto> Dir, [''f''] \<mapsto> Dev 20481], devices = [20481 \<mapsto> 1]\<rparr>\<rparr>)
   \<and> registerOpfsFile memfs_ops (fresh memfs_root) ''/d/x'' (1::nat)
     = ((Inr True, []),
        \<lparr>opfs_device_minor = Some 1,
         FS = Some \<lparr>nodes = [[] \<mapsto> Dir, [''d''] \<mapsto> Dir, [''d'', ''x''] \<mapsto> Dev 20481],
                    devices = [20481 \<mapsto> 1]\<rparr>\<rparr>)
   \<and> fst (fst (registerOpfsFile memfs_ops
        \<lparr>opfs_device_minor = Some 1,
         FS = Some \<lparr>nodes = [[] \<mapsto> Dir, [''f''] \<mapsto> Dev 20481], devices = [20481 \<mapsto> 1]\<rparr>\<rparr>
        ''/f/g'' (2::nat))) = Inr False
   \<and> snd (registerOpfsFile memfs_ops
        \<lparr>opfs_device_minor = Some 1,
         FS = Some \<lparr>nodes = [[] \<mapsto> Dir, [''f''] \<mapsto> Dev 20481], devices = [20481 \<mapsto> 1]\<rparr>\<rparr>
        ''/f/g'' (2::nat))
     = \<lparr>opfs_device_minor = Some 2,
        FS = Some \<lparr>nodes = [[] \<mapsto> Dir, [''f''] \<mapsto> Dev 20481],
                   devices = [20481 \<mapsto> 1, 20482 \<mapsto> 2]\<rparr>\<rparr>
   \<and> fst (fst (registerOpfsFile memfs_ops (fresh memfs_root) ''/a/b/y'' (1::nat))) = Inr False
   \<and> snd (registerOpfsFile memfs_ops (fresh memfs_root) ''/a/b/y'' (1::nat))
     = \<lparr>opfs_device_minor = Some 1,
        FS = Some \<lparr>nodes = [[] \<mapsto> Dir], devices = [20481 \<mapsto> 1]\<rparr>\<rparr>"
proof -
  let ?fs1 = "\<lparr>nodes = [[] \<mapsto> Dir, [''f''] \<mapsto> Dev 20481], devices = [20481 \<mapsto> 1::nat]\<rparr>"
  let ?st1 = "\<lparr>opfs_device_minor = Some 1, FS = Some ?fs1\<rparr>"
  have f: "FS (fresh (memfs_root :: nat memfs)) = Some memfs_root" by (simp add: fresh_def)
  have s: "FS ?st1 = Some ?fs1" by simp
  have l1: "fileName ''/f'' \<noteq> []" "fileName ''/f'' \<noteq> ''.''" "fileName ''/f'' \<noteq> ''..''"
    and l2: "fileName ''/d/x'' \<noteq> []" "fileName ''/d/x'' \<noteq> ''.''" "fileName ''/d/x'' \<noteq> ''..''"
    and l3: "fileName ''/f/g'' \<noteq> []" "fileName ''/f/g'' \<noteq> ''.''" "fileName ''/f/g'' \<noteq> ''..''"
    and l4: "fileName ''/a/b/y'' \<noteq> []" "fileName ''/a/b/y'' \<noteq> ''.''" "fileName ''/a/b/y'' \<noteq> ''..''"
    by (simp_all add: example_paths)
  have a: "registerOpfsFile memfs_ops (fresh memfs_root) ''/f'' (1::nat) = ((Inr True, []), ?st1)"
    using parent_directory_handling [OF f l1, of 1, THEN conjunct1]
    by (simp add: example_paths example_devices memfs_root_def fresh_def counter_def)
  have b: "registerOpfsFile memfs_ops (fresh memfs_root) ''/d/x'' (1::nat)
     = ((Inr True, []),
        \<lparr>opfs_device_minor = Some 1,
         FS = Some \<lparr>nodes = [[] \<mapsto> Dir, [''d''] \<mapsto> Dir, [''d'', ''x''] \<mapsto> Dev 20481],
                    devices = [20481 \<mapsto> 1]\<rparr>\<rparr>)"
    using parent_directory_handling [OF f l2, of 1, THEN conjunct2, THEN conjunct1]
    by (simp add: example_paths example_devices memfs_root_def fresh_def counter_def)
  have "\<exists>e. registerOpfsFile memfs_ops ?st1 ''/f/g'' 2
     = ((Inr False, [Failed_to_register e]),
        \<lparr>opfs_device_minor = Some 2,
         FS = Some \<lparr>nodes = [[] \<mapsto> Dir, [''f''] \<mapsto> Dev 20481],
                    devices = [20481 \<mapsto> 1, 20482 \<mapsto> 2]\<rparr>\<rparr>)"
    using parent_directory_handling [OF s l3, of 2, THEN conjunct2, THEN conjunct2, THEN conjunct1]
    by (simp add: example_paths example_devices counter_def)
  then have c: "fst (fst (registerOpfsFile memfs_ops ?st1 ''/f/g'' 2)) = Inr False"
    "snd (registerOpfsFile memfs_ops ?st1 ''/f/g'' 2)
     = \<lparr>opfs_device_minor = Some 2,
        FS = Some \<lparr>nodes = [[] \<mapsto> Dir, [''f''] \<mapsto> Dev 20481],
                   devices = [20481 \<mapsto> 1, 20482 \<mapsto> 2]\<rparr>\<rparr>"
    by auto
  have "\<exists>e. registerOpfsFile memfs_ops (fresh memfs_root) ''/a/b/y'' (1::nat)
     = ((Inr False, [Failed_to_register e]),
        \<lparr>opfs_device_minor = Some 1,
         FS = Some \<lparr>nodes = [[] \<mapsto> Dir], devices = [20481 \<mapsto> 1]\<rparr>\<rparr>)"
    using parent_directory_handling [OF f l4, of 1, THEN conjunct2, THEN conjunct2, THEN conjunct2]
    by (simp add: example_paths example_devices memfs_root_def fresh_def counter_def)
  then have d: "fst (fst (registerOpfsFile memfs_ops (fresh memfs_root) ''/a/b/y'' (1::nat))) = Inr False"
    "snd (registerOpfsFile memfs_ops (fresh memfs_root) ''/a/b/y'' (1::nat))
     = \<lparr>opfs_device_minor = Some 1,
        FS = Some \<lparr>nodes = [[] \<mapsto> Dir], devices = [20481 \<mapsto> 1]\<rparr>\<rparr>"
    by auto
  from a b c d show ?thesis by blast
qed

subsection \<open>One mount at a mountable path\<close>


lemma after_mkdir_devices:
  "after_mkdir (fs\<lparr>devices := x\<rparr>) path = (after_mkdir fs path)\<lparr>devices := x\<rparr>"
  by (simp add: after_mkdir_def memfs_mknod_def Let_def split: option.splits node.splits)


text \<open>A call returns \<open>true\<close> exactly when its path is mountable.\<close>

lemma register_iff_mountable:
  assumes "FS st = Some fs"
  shows "fst (fst (registerOpfsFile memfs_ops st path a)) = Inr True \<longleftrightarrow> mountable fs path"
  by (simp add: registerOpfsFile_memfs [OF assms] after_mkdir_devices mountable_def
      memfs_mknod_def Let_def split: option.splits node.splits)


text \<open>For a path whose last part is a name, mountable in terms of the tree.\<close>

lemma mountable_name:
  assumes "fileName path \<noteq> []" and "fileName path \<noteq> ''.''" and "fileName path \<noteq> ''..''"
  shows "mountable fs path \<longleftrightarrow>
           nodes fs (resolve_path path) = None
           \<and> (nodes fs (resolve_path (dirPath path)) = Some Dir
              \<or> resolve_path (dirPath path) \<noteq> []
                \<and> nodes fs (resolve_path (dirPath path)) = None
                \<and> nodes fs (butlast (resolve_path (dirPath path))) = Some Dir)"
proof -
  let ?d = "resolve_path (dirPath path)"
  let ?cs = "resolve_path path"
  have cs: "?cs = ?d @ [fileName path]"
    using assms by (rule resolve_path_leaf)
  then have bl: "butlast ?cs = ?d" and ne: "?cs \<noteq> []" and neq: "?cs \<noteq> ?d" by simp_all
  show ?thesis
    using neq
    by (auto simp add: mountable_def bl ne after_mkdir_def memfs_mknod_def Let_def
        split: option.splits node.splits if_splits)
qed

subsection \<open>Mounting twice at one path\<close>




text \<open>
  The failed call has run \<^verbatim>\<open>FS.registerDevice\<close> (line 28) before \<^verbatim>\<open>FS.mkdev\<close> (line
  98) throws. After 4096 registrations its device number is that of the first one, and
  the failed call replaces the stream operations of the node that is mounted.
\<close>

lemma duplicate_mount_rebinds_device:
  "registerOpfsFile memfs_ops
     \<lparr>opfs_device_minor = Some 4096,
      FS = Some \<lparr>nodes = [[] \<mapsto> Dir, [''f''] \<mapsto> Dev 20481], devices = [20481 \<mapsto> 1::nat]\<rparr>\<rparr>
     ''/f'' 2
   = ((Inr False, [Failed_to_register (ErrnoError EEXIST)]),
      \<lparr>opfs_device_minor = Some 4097,
       FS = Some \<lparr>nodes = [[] \<mapsto> Dir, [''f''] \<mapsto> Dev 20481], devices = [20481 \<mapsto> 2]\<rparr>\<rparr>)"
proof -
  have "memfs_makedev 80 4097 = 20481" by (simp add: memfs_makedev_def)
  then show ?thesis
    by (simp add: example_paths registerOpfsFile_memfs after_mkdir_def memfs_mknod_def
        device_identity_eq counter_def Let_def)
qed

subsection \<open>A sequence of mounts\<close>







end
